theory Spec2Isabelle
  imports Main
begin

section \<open>Options for building an AnalysisRun (internal/rollouts/options.go)\<close>

text \<open>
  The file declares three length constants, the accumulator struct
  \<open>AnalysisRunOptions\<close>, the \<open>Owner\<close> struct, four option types that implement the
  interface \<open>AnalysisRunOption\<close>, and \<open>Apply\<close>, which runs a list of options over the
  accumulator.

  Go strings are byte sequences and \<open>len\<close> counts bytes; \<open>string\<close> (a list of 8-bit
  \<open>char\<close>) is the same thing, and the slice expression \<open>s[0:n]\<close> with \<open>n \<le> len(s)\<close> is
  \<open>take n s\<close>.

  A Go map is a reference to a mutable object, and \<open>WithExtraLabels\<close> both stores the
  caller's reference in the accumulator and later writes through it. Map values are
  therefore references (\<open>None\<close> is the nil map, \<open>Some a\<close> the map object at address
  \<open>a\<close>) into an explicit store of map objects, and every operation passes the store
  along with the accumulator. The store is total: every address holds a map object,
  as every non-nil map value of a Go program does.
\<close>

subsection \<open>Constants\<close>

definition ulidLength :: nat where
  "ulidLength = 26"

definition maxNameSuffixLength :: nat where
  "maxNameSuffixLength = 7"

definition maxNamePrefixLength :: nat where
  "maxNamePrefixLength = 253 - (1 + ulidLength) - (1 + maxNameSuffixLength)"

subsection \<open>Data\<close>

text \<open>
  Modelled from the spec: \<open>types.NamespacedName\<close> belongs to
  \<open>k8s.io/apimachinery\<close> and is not part of this file; the spec describes it as a
  namespace and name pair. The code only stores it.
\<close>

record NamespacedName =
  Namespace :: string
  Name :: string

record Owner =
  APIVersion :: string
  Kind :: string
  Reference :: NamespacedName
  BlockDeletion :: bool

type_synonym addr = nat

type_synonym labels = "string \<rightharpoonup> string"

type_synonym map_ref = "addr option"

type_synonym store = "addr \<Rightarrow> labels"

record AnalysisRunOptions =
  NamePrefix :: string
  NameSuffix :: string
  ExtraLabels :: map_ref
  Owners :: "Owner list"

text \<open>
  The interface \<open>AnalysisRunOption\<close> has exactly four implementations in the file;
  each is a named type over its payload. The interface method is the dispatch on the
  constructor. An option is a value of one of these four types and the accumulator is
  a struct value: the nil interface value and a nil receiver pointer, on which the
  method call or the field write panics, are not values of these types. None of the
  four methods has a failing branch of its own: the slice expressions are guarded by
  the length test, and \<open>maps.Copy\<close> is only reached with a non-nil destination.
\<close>

datatype AnalysisRunOption =
    is_WithNamePrefix: WithNamePrefix string
  | is_WithNameSuffix: WithNameSuffix string
  | is_WithExtraLabels: WithExtraLabels map_ref
  | is_WithOwner: WithOwner Owner

type_synonym state = "store \<times> AnalysisRunOptions"

text \<open>The zero value of the struct: empty strings, nil map, nil slice.\<close>

definition zero_AnalysisRunOptions :: AnalysisRunOptions where
  "zero_AnalysisRunOptions =
     \<lparr>NamePrefix = [], NameSuffix = [], ExtraLabels = None, Owners = []\<rparr>"

text \<open>A store in which every map object is empty.\<close>

definition empty_store :: store where
  "empty_store = (\<lambda>a. Map.empty)"

text \<open>The entries read through a map reference; ranging over a nil map yields none.\<close>

definition entries :: "store \<Rightarrow> map_ref \<Rightarrow> labels" where
  "entries h r = (case r of None \<Rightarrow> Map.empty | Some a \<Rightarrow> h a)"

subsection \<open>Operations\<close>

text \<open>
  \<open>maps.Copy(dst, src)\<close> of the standard library is
  \<open>for k, v := range src { dst[k] = v }\<close>. It is only called with a non-nil \<open>dst\<close>;
  \<open>src\<close> may be nil.
\<close>

definition maps_Copy :: "addr \<Rightarrow> map_ref \<Rightarrow> store \<Rightarrow> store" where
  "maps_Copy dst src h =
     (case src of None \<Rightarrow> h | Some s \<Rightarrow> h(dst := h dst ++ h s))"

fun ApplyToAnalysisRun :: "AnalysisRunOption \<Rightarrow> state \<Rightarrow> state" where
  "ApplyToAnalysisRun (WithNamePrefix p) (h, opts) =
     (let prefix = p;
          prefix = (if length prefix > maxNamePrefixLength
                    then take maxNamePrefixLength prefix else prefix)
      in (h, opts\<lparr>NamePrefix := prefix\<rparr>))"
| "ApplyToAnalysisRun (WithNameSuffix p) (h, opts) =
     (let suffix = p;
          suffix = (if length suffix > maxNameSuffixLength
                    then take maxNameSuffixLength suffix else suffix)
      in (h, opts\<lparr>NameSuffix := suffix\<rparr>))"
| "ApplyToAnalysisRun (WithExtraLabels m) (h, opts) =
     (case ExtraLabels opts of
        Some dst \<Rightarrow> (maps_Copy dst m h, opts)
      | None \<Rightarrow> (h, opts\<lparr>ExtraLabels := m\<rparr>))"
| "ApplyToAnalysisRun (WithOwner w) (h, opts) =
     (h, opts\<lparr>Owners := Owners opts @ [w]\<rparr>)"

primrec Apply :: "AnalysisRunOption list \<Rightarrow> state \<Rightarrow> state" where
  "Apply [] s = s"
| "Apply (opt # opts) s = Apply opts (ApplyToAnalysisRun opt s)"

subsection \<open>Specification-side functions\<close>

text \<open>
  The owners named by a list of options, in order: what the spec says \<open>Owners\<close> holds
  after the options have been applied.
\<close>

fun owners_of :: "AnalysisRunOption list \<Rightarrow> Owner list" where
  "owners_of [] = []"
| "owners_of (WithOwner w # xs) = w # owners_of xs"
| "owners_of (x # xs) = owners_of xs"

subsection \<open>Concrete values used in the examples\<close>

text \<open>
  Two map objects at distinct addresses, \<open>{"a":"1"}\<close> at 1 and
  \<open>{"a":"2","b":"3"}\<close> at 2, and an owner record.
\<close>

definition example_store :: store where
  "example_store =
     empty_store(1 := [''a'' \<mapsto> ''1''], 2 := [''a'' \<mapsto> ''2'', ''b'' \<mapsto> ''3''])"

definition example_owner :: Owner where
  "example_owner =
     \<lparr>APIVersion = ''kargo.akuity.io/v1alpha1'', Kind = ''Stage'',
      Reference = \<lparr>Namespace = ''ns'', Name = ''stage''\<rparr>, BlockDeletion = True\<rparr>"

section \<open>Properties\<close>

subsection \<open>The constants\<close>

lemma maxNamePrefixLength_eq: "maxNamePrefixLength = 218"
  by (simp add: maxNamePrefixLength_def ulidLength_def maxNameSuffixLength_def)

subsection \<open>Apply as a fold\<close>

lemma Apply_append: "Apply (a @ b) s = Apply b (Apply a s)"
  by (induction a arbitrary: s) simp_all

lemma Apply_foldl: "Apply xs s = foldl (\<lambda>s x. ApplyToAnalysisRun x s) s xs"
  by (induction xs arbitrary: s) simp_all

text \<open>
  Claim C7: calling \<open>Apply\<close> with no options is the identity on the accumulator (and on
  the store); applied to the zero value, the prefix and suffix are empty, the labels
  are the nil map and the owner list is empty.
\<close>

theorem Apply_no_options:
  "Apply [] (h, acc) = (h, acc)
   \<and> NamePrefix (snd (Apply [] (h, zero_AnalysisRunOptions))) = []
   \<and> NameSuffix (snd (Apply [] (h, zero_AnalysisRunOptions))) = []
   \<and> ExtraLabels (snd (Apply [] (h, zero_AnalysisRunOptions))) = None
   \<and> Owners (snd (Apply [] (h, zero_AnalysisRunOptions))) = []"
  by (simp add: zero_AnalysisRunOptions_def)

text \<open>
  Claim C10: \<open>Apply\<close> over a concatenation is \<open>Apply\<close> of the first part followed by
  \<open>Apply\<close> of the second, from every state; and \<open>Apply\<close> is the left fold of
  single-option application over the list.
\<close>

theorem Apply_composes:
  "Apply (a @ b) s = Apply b (Apply a s)
   \<and> Apply xs s = foldl (\<lambda>s x. ApplyToAnalysisRun x s) s xs"
  by (simp add: Apply_append Apply_foldl)

subsection \<open>Truncation of prefix and suffix\<close>

text \<open>
  Claim C2: \<open>WithNamePrefix\<close> applied with a string of at most 218 bytes sets
  \<open>NamePrefix\<close> to that string; with a longer string it sets \<open>NamePrefix\<close> to the
  first 218 bytes of it. 260 times \<open>x\<close> becomes 218 times \<open>x\<close>.
\<close>

theorem WithNamePrefix_result:
  "maxNamePrefixLength = 218
   \<and> NamePrefix (snd (ApplyToAnalysisRun (WithNamePrefix p) (h, acc)))
       = (if length p \<le> maxNamePrefixLength then p else take maxNamePrefixLength p)
   \<and> length (NamePrefix (snd (ApplyToAnalysisRun (WithNamePrefix p) (h, acc))))
       = min (length p) maxNamePrefixLength
   \<and> NamePrefix (snd (ApplyToAnalysisRun (WithNamePrefix (replicate 260 CHR ''x'')) (h, acc)))
       = replicate 218 CHR ''x''"
  by (simp add: maxNamePrefixLength_eq)

text \<open>
  Claim C3: \<open>WithNameSuffix\<close> applied with a string of at most 7 bytes sets
  \<open>NameSuffix\<close> to that string; with a longer string it sets \<open>NameSuffix\<close> to the
  first 7 bytes of it. \<open>abcdef12\<close> becomes \<open>abcdef1\<close>.
\<close>

theorem WithNameSuffix_result:
  "maxNameSuffixLength = 7
   \<and> NameSuffix (snd (ApplyToAnalysisRun (WithNameSuffix p) (h, acc)))
       = (if length p \<le> maxNameSuffixLength then p else take maxNameSuffixLength p)
   \<and> length (NameSuffix (snd (ApplyToAnalysisRun (WithNameSuffix p) (h, acc))))
       = min (length p) maxNameSuffixLength
   \<and> NameSuffix (snd (ApplyToAnalysisRun (WithNameSuffix ''abcdef12'') (h, acc)))
       = ''abcdef1''"
  by (simp add: maxNameSuffixLength_def)

subsection \<open>The name-length bound\<close>

lemma step_caps:
  "length (NamePrefix (snd s)) \<le> maxNamePrefixLength
     \<and> length (NameSuffix (snd s)) \<le> maxNameSuffixLength
   \<Longrightarrow> length (NamePrefix (snd (ApplyToAnalysisRun x s))) \<le> maxNamePrefixLength
     \<and> length (NameSuffix (snd (ApplyToAnalysisRun x s))) \<le> maxNameSuffixLength"
  by (cases x; cases s) (auto split: option.split)

lemma Apply_caps:
  "length (NamePrefix (snd s)) \<le> maxNamePrefixLength
     \<and> length (NameSuffix (snd s)) \<le> maxNameSuffixLength
   \<Longrightarrow> length (NamePrefix (snd (Apply xs s))) \<le> maxNamePrefixLength
     \<and> length (NameSuffix (snd (Apply xs s))) \<le> maxNameSuffixLength"
proof (induction xs arbitrary: s)
  case Nil
  then show ?case by simp
next
  case (Cons x xs)
  have "length (NamePrefix (snd (ApplyToAnalysisRun x s))) \<le> maxNamePrefixLength
     \<and> length (NameSuffix (snd (ApplyToAnalysisRun x s))) \<le> maxNameSuffixLength"
    using Cons.prems by (rule step_caps)
  then show ?case using Cons.IH by simp
qed

text \<open>
  Claim C1: after any list of options applied to the zero-valued accumulator,
  \<open>len(NamePrefix) + 1 + 26 + 1 + len(NameSuffix) \<le> 253\<close>, the prefix being at most
  218 bytes and the suffix at most 7.
\<close>

theorem name_length_bound:
  "length (NamePrefix (snd (Apply xs (h, zero_AnalysisRunOptions)))) + 1 + ulidLength + 1
     + length (NameSuffix (snd (Apply xs (h, zero_AnalysisRunOptions)))) \<le> 253
   \<and> length (NamePrefix (snd (Apply xs (h, zero_AnalysisRunOptions)))) \<le> maxNamePrefixLength
   \<and> length (NameSuffix (snd (Apply xs (h, zero_AnalysisRunOptions)))) \<le> maxNameSuffixLength
   \<and> maxNamePrefixLength = 218 \<and> maxNameSuffixLength = 7 \<and> ulidLength = 26"
proof -
  have "length (NamePrefix (snd (Apply xs (h, zero_AnalysisRunOptions)))) \<le> maxNamePrefixLength
     \<and> length (NameSuffix (snd (Apply xs (h, zero_AnalysisRunOptions)))) \<le> maxNameSuffixLength"
    by (rule Apply_caps) (simp add: zero_AnalysisRunOptions_def)
  then show ?thesis
    by (simp add: maxNamePrefixLength_eq maxNameSuffixLength_def ulidLength_def)
qed

subsection \<open>Each option writes its own field\<close>

text \<open>
  Claim C9: \<open>WithNamePrefix\<close> leaves \<open>NameSuffix\<close>, \<open>ExtraLabels\<close> and \<open>Owners\<close>
  unchanged; \<open>WithNameSuffix\<close> leaves \<open>NamePrefix\<close>, \<open>ExtraLabels\<close> and \<open>Owners\<close>
  unchanged; \<open>WithExtraLabels\<close> leaves \<open>NamePrefix\<close>, \<open>NameSuffix\<close> and \<open>Owners\<close>
  unchanged; \<open>WithOwner\<close> leaves \<open>NamePrefix\<close>, \<open>NameSuffix\<close> and \<open>ExtraLabels\<close>
  unchanged. The three options that leave \<open>ExtraLabels\<close> alone leave the map objects
  in the store alone too.
\<close>

theorem option_frame:
  "fst (ApplyToAnalysisRun (WithNamePrefix p) (h, acc)) = h
   \<and> NameSuffix (snd (ApplyToAnalysisRun (WithNamePrefix p) (h, acc))) = NameSuffix acc
   \<and> ExtraLabels (snd (ApplyToAnalysisRun (WithNamePrefix p) (h, acc))) = ExtraLabels acc
   \<and> Owners (snd (ApplyToAnalysisRun (WithNamePrefix p) (h, acc))) = Owners acc
   \<and> fst (ApplyToAnalysisRun (WithNameSuffix p) (h, acc)) = h
   \<and> NamePrefix (snd (ApplyToAnalysisRun (WithNameSuffix p) (h, acc))) = NamePrefix acc
   \<and> ExtraLabels (snd (ApplyToAnalysisRun (WithNameSuffix p) (h, acc))) = ExtraLabels acc
   \<and> Owners (snd (ApplyToAnalysisRun (WithNameSuffix p) (h, acc))) = Owners acc
   \<and> NamePrefix (snd (ApplyToAnalysisRun (WithExtraLabels m) (h, acc))) = NamePrefix acc
   \<and> NameSuffix (snd (ApplyToAnalysisRun (WithExtraLabels m) (h, acc))) = NameSuffix acc
   \<and> Owners (snd (ApplyToAnalysisRun (WithExtraLabels m) (h, acc))) = Owners acc
   \<and> fst (ApplyToAnalysisRun (WithOwner w) (h, acc)) = h
   \<and> NamePrefix (snd (ApplyToAnalysisRun (WithOwner w) (h, acc))) = NamePrefix acc
   \<and> NameSuffix (snd (ApplyToAnalysisRun (WithOwner w) (h, acc))) = NameSuffix acc
   \<and> ExtraLabels (snd (ApplyToAnalysisRun (WithOwner w) (h, acc))) = ExtraLabels acc"
  by (simp split: option.split)

subsection \<open>Merging labels\<close>

lemma labels_step:
  "entries (fst (ApplyToAnalysisRun (WithExtraLabels m) (h, acc)))
           (ExtraLabels (snd (ApplyToAnalysisRun (WithExtraLabels m) (h, acc))))
   = entries h (ExtraLabels acc) ++ entries h m"
  by (cases "ExtraLabels acc"; cases m) (simp_all add: entries_def maps_Copy_def)

lemma labels_two:
  "entries (fst (Apply [WithExtraLabels m1, WithExtraLabels m2] (h, zero_AnalysisRunOptions)))
           (ExtraLabels (snd (Apply [WithExtraLabels m1, WithExtraLabels m2]
                                (h, zero_AnalysisRunOptions))))
   = entries h m1 ++ entries h m2"
  by (cases m1; cases m2)
    (simp_all add: entries_def maps_Copy_def zero_AnalysisRunOptions_def)

text \<open>
  Claim C4: applying \<open>WithExtraLabels m1\<close> then \<open>WithExtraLabels m2\<close> to the
  zero-valued accumulator yields labels in which every key of \<open>m2\<close> has the value of
  \<open>m2\<close> and every other key of \<open>m1\<close> keeps the value of \<open>m1\<close>: the result is
  \<open>m1 ++ m2\<close>, the contents being those the two maps have when \<open>Apply\<close> is called
  (either may be nil, and both may be the same object). One application, from any
  state, overlays the payload on the labels already there. \<open>{"a":"1"}\<close> then
  \<open>{"a":"2","b":"3"}\<close> yields \<open>{"a":"2","b":"3"}\<close>.
\<close>

theorem WithExtraLabels_later_wins:
  "entries (fst (Apply [WithExtraLabels m1, WithExtraLabels m2] (h, zero_AnalysisRunOptions)))
           (ExtraLabels (snd (Apply [WithExtraLabels m1, WithExtraLabels m2]
                                (h, zero_AnalysisRunOptions))))
     = entries h m1 ++ entries h m2
   \<and> entries (fst (Apply [WithExtraLabels m1, WithExtraLabels m2] (h, zero_AnalysisRunOptions)))
           (ExtraLabels (snd (Apply [WithExtraLabels m1, WithExtraLabels m2]
                                (h, zero_AnalysisRunOptions)))) k
     = (case entries h m2 k of Some v \<Rightarrow> Some v | None \<Rightarrow> entries h m1 k)
   \<and> entries (fst (ApplyToAnalysisRun (WithExtraLabels m) (h, acc)))
           (ExtraLabels (snd (ApplyToAnalysisRun (WithExtraLabels m) (h, acc))))
     = entries h (ExtraLabels acc) ++ entries h m
   \<and> entries example_store (Some 1) = [''a'' \<mapsto> ''1'']
   \<and> entries example_store (Some 2) = [''a'' \<mapsto> ''2'', ''b'' \<mapsto> ''3'']
   \<and> entries (fst (Apply [WithExtraLabels (Some 1), WithExtraLabels (Some 2)]
                      (example_store, zero_AnalysisRunOptions)))
           (ExtraLabels (snd (Apply [WithExtraLabels (Some 1), WithExtraLabels (Some 2)]
                                (example_store, zero_AnalysisRunOptions))))
     = [''a'' \<mapsto> ''2'', ''b'' \<mapsto> ''3'']"
proof -
  have keywise: "(f ++ g) k = (case g k of Some v \<Rightarrow> Some v | None \<Rightarrow> f k)"
    for f g :: labels
    by (simp add: map_add_def split: option.split)
  have e1: "entries example_store (Some 1) = [''a'' \<mapsto> ''1'']"
    by (simp add: entries_def example_store_def)
  have e2: "entries example_store (Some 2) = [''a'' \<mapsto> ''2'', ''b'' \<mapsto> ''3'']"
    by (simp add: entries_def example_store_def)
  have ex: "entries example_store (Some 1) ++ entries example_store (Some 2)
              = [''a'' \<mapsto> ''2'', ''b'' \<mapsto> ''3'']"
    unfolding e1 e2 by simp
  show ?thesis
    unfolding labels_two labels_step
    using keywise [of "entries h m1" "entries h m2"] e1 e2 ex by blast
qed

subsection \<open>Labels and the nil map\<close>

lemma labels_stay_set_step:
  "ExtraLabels (snd s) \<noteq> None \<Longrightarrow> ExtraLabels (snd (ApplyToAnalysisRun x s)) \<noteq> None"
  by (cases x; cases s) auto

lemma labels_stay_set:
  "ExtraLabels (snd s) \<noteq> None \<Longrightarrow> ExtraLabels (snd (Apply xs s)) \<noteq> None"
proof (induction xs arbitrary: s)
  case Nil
  then show ?case by simp
next
  case (Cons x xs)
  have "ExtraLabels (snd (ApplyToAnalysisRun x s)) \<noteq> None"
    using Cons.prems by (rule labels_stay_set_step)
  then have "ExtraLabels (snd (Apply xs (ApplyToAnalysisRun x s))) \<noteq> None"
    by (rule Cons.IH)
  then show ?case by simp
qed

lemma labels_set_by_non_nil:
  "ExtraLabels (snd (ApplyToAnalysisRun (WithExtraLabels (Some a)) s)) \<noteq> None"
  by (cases s) (auto split: option.split)

text \<open>
  Claim C6 as stated fails: \<open>WithExtraLabels\<close> with a nil payload, applied to the
  zero-valued accumulator, stores the nil payload, so \<open>ExtraLabels\<close> is nil after a
  \<open>WithExtraLabels\<close> option has been applied.
\<close>

theorem nil_labels_counterexample:
  "is_WithExtraLabels (WithExtraLabels None)
   \<and> ExtraLabels (snd (Apply [WithExtraLabels None] (empty_store, zero_AnalysisRunOptions)))
       = None"
  by (simp add: zero_AnalysisRunOptions_def)

text \<open>
  Claim C6, amended: once a \<open>WithExtraLabels\<close> option with a non-nil map has been
  applied (anywhere in the list, among any other options, from any state),
  \<open>ExtraLabels\<close> is not nil.
\<close>

theorem labels_not_nil_after_non_nil:
  assumes "WithExtraLabels (Some a) \<in> set xs"
  shows "ExtraLabels (snd (Apply xs s)) \<noteq> None"
proof -
  obtain ys zs where xs: "xs = ys @ WithExtraLabels (Some a) # zs"
    using assms by (auto simp: in_set_conv_decomp)
  have "ExtraLabels (snd (ApplyToAnalysisRun (WithExtraLabels (Some a)) (Apply ys s))) \<noteq> None"
    by (rule labels_set_by_non_nil)
  then have "ExtraLabels (snd (Apply zs
               (ApplyToAnalysisRun (WithExtraLabels (Some a)) (Apply ys s)))) \<noteq> None"
    by (rule labels_stay_set)
  then show ?thesis by (simp add: xs Apply_append)
qed

theorem labels_not_nil_after_non_nil_witness:
  "WithExtraLabels (Some 1)
     \<in> set [WithExtraLabels None, WithNamePrefix ''p'', WithExtraLabels (Some 1),
            WithExtraLabels None]
   \<and> ExtraLabels (snd (Apply [WithExtraLabels None, WithNamePrefix ''p'',
                              WithExtraLabels (Some 1), WithExtraLabels None]
                         (empty_store, zero_AnalysisRunOptions))) \<noteq> None"
  using labels_not_nil_after_non_nil
          [where a = 1
             and xs = "[WithExtraLabels None, WithNamePrefix ''p'', WithExtraLabels (Some 1),
                        WithExtraLabels None]"
             and s = "(empty_store, zero_AnalysisRunOptions)"]
  by simp

subsection \<open>Owners accumulate in order\<close>

text \<open>
  \<open>append\<close> may reuse the backing array of the old slice, but the slice it returns,
  which is what the accumulator then holds, always reads as the old elements followed
  by the new one; the owner list is therefore a value.
\<close>

lemma Owners_step:
  "Owners (snd (ApplyToAnalysisRun x (h, acc))) = Owners acc @ owners_of [x]"
  by (cases x) (simp_all split: option.split)

lemma owners_of_Cons: "owners_of (x # xs) = owners_of [x] @ owners_of xs"
  by (cases x) simp_all

lemma Owners_Apply:
  "Owners (snd (Apply xs s)) = Owners (snd s) @ owners_of xs"
proof (induction xs arbitrary: s)
  case Nil
  then show ?case by simp
next
  case (Cons x xs)
  obtain h acc where s: "s = (h, acc)" by (cases s)
  show ?case
    using Cons.IH [of "ApplyToAnalysisRun x s"] Owners_step [of x h acc]
      owners_of_Cons [of x xs]
    by (simp add: s)
qed

lemma length_owners_of: "length (owners_of xs) = length (filter is_WithOwner xs)"
  by (induction xs rule: owners_of.induct) simp_all

text \<open>
  Claim C5: after any list of options, \<open>Owners\<close> is the old owner list followed by the
  payloads of the \<open>WithOwner\<close> options in the order they were applied; from the
  zero-valued accumulator its length is the number of \<open>WithOwner\<close> options in the list.
  \<open>WithOwner o1\<close> then \<open>WithOwner o2\<close> gives \<open>[o1, o2]\<close>, and the same owner applied
  twice is there twice.
\<close>

theorem Owners_in_order:
  "Owners (snd (Apply xs (h, acc))) = Owners acc @ owners_of xs
   \<and> Owners (snd (Apply xs (h, zero_AnalysisRunOptions))) = owners_of xs
   \<and> length (Owners (snd (Apply xs (h, zero_AnalysisRunOptions))))
       = length (filter is_WithOwner xs)
   \<and> Owners (snd (Apply [WithOwner o1, WithOwner o2] (h, zero_AnalysisRunOptions))) = [o1, o2]
   \<and> Owners (snd (Apply [WithOwner o1, WithOwner o1] (h, zero_AnalysisRunOptions))) = [o1, o1]"
  by (simp add: Owners_Apply length_owners_of zero_AnalysisRunOptions_def del: Apply.simps)

subsection \<open>Order of application; the last prefix and suffix win\<close>

lemma NamePrefix_kept_step:
  "\<not> is_WithNamePrefix x \<Longrightarrow> NamePrefix (snd (ApplyToAnalysisRun x s)) = NamePrefix (snd s)"
  by (cases x; cases s) (auto split: option.split)

lemma NameSuffix_kept_step:
  "\<not> is_WithNameSuffix x \<Longrightarrow> NameSuffix (snd (ApplyToAnalysisRun x s)) = NameSuffix (snd s)"
  by (cases x; cases s) (auto split: option.split)

lemma NamePrefix_kept:
  "\<forall>x\<in>set zs. \<not> is_WithNamePrefix x \<Longrightarrow> NamePrefix (snd (Apply zs s)) = NamePrefix (snd s)"
  by (induction zs arbitrary: s) (simp_all add: NamePrefix_kept_step)

lemma NameSuffix_kept:
  "\<forall>x\<in>set zs. \<not> is_WithNameSuffix x \<Longrightarrow> NameSuffix (snd (Apply zs s)) = NameSuffix (snd s)"
  by (induction zs arbitrary: s) (simp_all add: NameSuffix_kept_step)

lemma NamePrefix_set_step:
  "NamePrefix (snd (ApplyToAnalysisRun (WithNamePrefix p) s))
     = (if length p > maxNamePrefixLength then take maxNamePrefixLength p else p)"
  by (cases s) simp

lemma NameSuffix_set_step:
  "NameSuffix (snd (ApplyToAnalysisRun (WithNameSuffix p) s))
     = (if length p > maxNameSuffixLength then take maxNameSuffixLength p else p)"
  by (cases s) simp

lemma NamePrefix_last:
  "\<forall>x\<in>set zs. \<not> is_WithNamePrefix x \<Longrightarrow>
   NamePrefix (snd (Apply (ys @ WithNamePrefix p # zs) s))
     = (if length p > maxNamePrefixLength then take maxNamePrefixLength p else p)"
  by (simp add: Apply_append NamePrefix_kept NamePrefix_set_step)

lemma NameSuffix_last:
  "\<forall>x\<in>set zs. \<not> is_WithNameSuffix x \<Longrightarrow>
   NameSuffix (snd (Apply (ys @ WithNameSuffix p # zs) s))
     = (if length p > maxNameSuffixLength then take maxNameSuffixLength p else p)"
  by (simp add: Apply_append NameSuffix_kept NameSuffix_set_step)

text \<open>
  Claim C8: \<open>Apply\<close> runs the options one after the other in the order given (it is
  the left fold of single-option application, every option of the list taking effect
  on the state its predecessors left). For two prefix options \<open>pa\<close> then \<open>pb\<close> the
  final \<open>NamePrefix\<close> is what \<open>pb\<close> alone gives, the possibly truncated \<open>pb\<close>; the same
  holds with any other options before, between and after them as long as no prefix
  option follows \<open>pb\<close>; and symmetrically for the suffix.
\<close>

theorem Apply_in_order_last_wins:
  "Apply (x # xs) s = Apply xs (ApplyToAnalysisRun x s)
   \<and> Apply xs s = foldl (\<lambda>s x. ApplyToAnalysisRun x s) s xs
   \<and> NamePrefix (snd (Apply [WithNamePrefix pa, WithNamePrefix pb] s))
       = NamePrefix (snd (Apply [WithNamePrefix pb] s))
   \<and> NamePrefix (snd (Apply [WithNamePrefix pa, WithNamePrefix pb] s))
       = (if length pb > maxNamePrefixLength then take maxNamePrefixLength pb else pb)
   \<and> NameSuffix (snd (Apply [WithNameSuffix qa, WithNameSuffix qb] s))
       = NameSuffix (snd (Apply [WithNameSuffix qb] s))
   \<and> NameSuffix (snd (Apply [WithNameSuffix qa, WithNameSuffix qb] s))
       = (if length qb > maxNameSuffixLength then take maxNameSuffixLength qb else qb)
   \<and> (filter is_WithNamePrefix post = [] \<longrightarrow>
        NamePrefix (snd (Apply (pre @ WithNamePrefix pa # mid @ WithNamePrefix pb # post) s))
          = NamePrefix (snd (Apply [WithNamePrefix pb] s)))
   \<and> (filter is_WithNameSuffix post' = [] \<longrightarrow>
        NameSuffix (snd (Apply (pre' @ WithNameSuffix qa # mid' @ WithNameSuffix qb # post') s))
          = NameSuffix (snd (Apply [WithNameSuffix qb] s)))"
proof -
  have p: "NamePrefix (snd (Apply (ys @ [WithNamePrefix pb]) s))
             = (if length pb > maxNamePrefixLength then take maxNamePrefixLength pb else pb)"
    for ys
    using NamePrefix_last [of "[]" ys pb s] by simp
  have q: "NameSuffix (snd (Apply (ys @ [WithNameSuffix qb]) s))
             = (if length qb > maxNameSuffixLength then take maxNameSuffixLength qb else qb)"
    for ys
    using NameSuffix_last [of "[]" ys qb s] by simp
  have pl: "filter is_WithNamePrefix post = [] \<longrightarrow>
        NamePrefix (snd (Apply (pre @ WithNamePrefix pa # mid @ WithNamePrefix pb # post) s))
          = NamePrefix (snd (Apply [WithNamePrefix pb] s))"
    using NamePrefix_last [of post "pre @ WithNamePrefix pa # mid" pb s] p [of "[]"]
    by (simp add: filter_empty_conv)
  have ql: "filter is_WithNameSuffix post' = [] \<longrightarrow>
        NameSuffix (snd (Apply (pre' @ WithNameSuffix qa # mid' @ WithNameSuffix qb # post') s))
          = NameSuffix (snd (Apply [WithNameSuffix qb] s))"
    using NameSuffix_last [of post' "pre' @ WithNameSuffix qa # mid'" qb s] q [of "[]"]
    by (simp add: filter_empty_conv)
  have two_p: "NamePrefix (snd (Apply [WithNamePrefix pa, WithNamePrefix pb] s))
       = (if length pb > maxNamePrefixLength then take maxNamePrefixLength pb else pb)"
    using p [of "[WithNamePrefix pa]"] by simp
  have two_q: "NameSuffix (snd (Apply [WithNameSuffix qa, WithNameSuffix qb] s))
       = (if length qb > maxNameSuffixLength then take maxNameSuffixLength qb else qb)"
    using q [of "[WithNameSuffix qa]"] by simp
  have one_p: "NamePrefix (snd (Apply [WithNamePrefix pb] s))
       = (if length pb > maxNamePrefixLength then take maxNamePrefixLength pb else pb)"
    using p [of "[]"] by simp
  have one_q: "NameSuffix (snd (Apply [WithNameSuffix qb] s))
       = (if length qb > maxNameSuffixLength then take maxNameSuffixLength qb else qb)"
    using q [of "[]"] by simp
  show ?thesis
    using pl ql two_p two_q one_p one_q Apply_foldl [of xs s] by simp
qed

theorem Apply_in_order_last_wins_witness:
  "filter is_WithNamePrefix [WithOwner example_owner, WithNameSuffix ''abc''] = []
   \<and> NamePrefix (snd (Apply ([WithExtraLabels None] @ WithNamePrefix ''first'' #
        [WithOwner example_owner] @ WithNamePrefix ''second'' #
        [WithOwner example_owner, WithNameSuffix ''abc''])
        (empty_store, zero_AnalysisRunOptions))) = ''second''
   \<and> filter is_WithNameSuffix [WithNamePrefix ''p'', WithExtraLabels None] = []
   \<and> NameSuffix (snd (Apply ([WithNamePrefix ''q''] @ WithNameSuffix ''0123456789'' #
        [WithOwner example_owner] @ WithNameSuffix ''abcdef12'' #
        [WithNamePrefix ''p'', WithExtraLabels None])
        (empty_store, zero_AnalysisRunOptions))) = ''abcdef1''"
  using Apply_in_order_last_wins
          [where s = "(empty_store, zero_AnalysisRunOptions)"
             and pa = "''first''" and pb = "''second''"
             and qa = "''0123456789''" and qb = "''abcdef12''"
             and pre = "[WithExtraLabels None]" and mid = "[WithOwner example_owner]"
             and post = "[WithOwner example_owner, WithNameSuffix ''abc'']"
             and pre' = "[WithNamePrefix ''q'']" and mid' = "[WithOwner example_owner]"
             and post' = "[WithNamePrefix ''p'', WithExtraLabels None]"]
  by (simp add: maxNamePrefixLength_def ulidLength_def maxNameSuffixLength_def)

end
